theory Spec2Isabelle
  imports Complex_Main "HOL-Library.Word" "HOL-Library.Product_Lexorder"
begin

section \<open>Python values\<close>

text \<open>
  A Python \<open>str\<close> is a sequence of Unicode code points, so it is modelled as a list of
  natural numbers; \<open>ascii\<close> turns a literal into that representation. \<open>bytes\<close> is a list
  of octets.
\<close>

type_synonym pystr = "nat list"

type_synonym bytes = "8 word list"

definition ascii :: "string \<Rightarrow> pystr" where
  "ascii s = map of_char s"

text \<open>\<open>str.isspace\<close> for one code point: the code points CPython treats as whitespace.\<close>

definition isspace :: "nat \<Rightarrow> bool" where
  "isspace c \<longleftrightarrow>
     (9 \<le> c \<and> c \<le> 13) \<or> (28 \<le> c \<and> c \<le> 32) \<or> c = 133 \<or> c = 160 \<or> c = 5760 \<or>
     (8192 \<le> c \<and> c \<le> 8202) \<or> c = 8232 \<or> c = 8233 \<or> c = 8239 \<or> c = 8287 \<or> c = 12288"

definition lstrip :: "pystr \<Rightarrow> pystr" where
  "lstrip s = dropWhile isspace s"

definition rstrip :: "pystr \<Rightarrow> pystr" where
  "rstrip s = rev (dropWhile isspace (rev s))"

definition strip :: "pystr \<Rightarrow> pystr" where
  "strip s = rstrip (lstrip s)"

text \<open>\<open>sep.join(xs)\<close>.\<close>

fun join :: "pystr \<Rightarrow> pystr list \<Rightarrow> pystr" where
  "join sep [] = []"
| "join sep [x] = x"
| "join sep (x # y # ys) = x @ sep @ join sep (y # ys)"

text \<open>
  \<open>str.splitlines()\<close>: a line ends at \<open>\n\<close>, \<open>\r\<close>, \<open>\r\n\<close>, \<open>\v\<close>, \<open>\f\<close>, the
  separators \<open>\x1c\<close>, \<open>\x1d\<close>, \<open>\x1e\<close>, \<open>\x85\<close>, and at U+2028 and U+2029; the line
  ends are dropped, and a text that ends with a line end has no empty last line.
\<close>

definition is_linebreak :: "nat \<Rightarrow> bool" where
  "is_linebreak c \<longleftrightarrow> c \<in> {10, 11, 12, 13, 28, 29, 30, 133, 8232, 8233}"

fun splitlines_from :: "pystr \<Rightarrow> pystr \<Rightarrow> pystr list" where
  "splitlines_from cur [] = (if cur = [] then [] else [cur])"
| "splitlines_from cur (c # cs) =
     (if c = 13 then
        (case cs of
           [] \<Rightarrow> cur # splitlines_from [] cs
         | d # cs' \<Rightarrow>
             if d = 10 then cur # splitlines_from [] cs' else cur # splitlines_from [] cs)
      else if is_linebreak c then cur # splitlines_from [] cs
      else splitlines_from (cur @ [c]) cs)"

definition splitlines :: "pystr \<Rightarrow> pystr list" where
  "splitlines s = splitlines_from [] s"

text \<open>\<open>str(n)\<close> for a non-negative integer, as the f-strings of the summaries use it.\<close>

function str_nat :: "nat \<Rightarrow> pystr" where
  "str_nat n = (if n < 10 then [48 + n] else str_nat (n div 10) @ [48 + n mod 10])"
  by pat_completeness auto
termination
  by (relation "measure id") auto

declare str_nat.simps [simp del]

section \<open>The data model\<close>

text \<open>The dictionary \<open>process_image_blob\<close> returns for one image.\<close>

record image_data =
  hash :: pystr
  size' :: nat
  width :: nat
  height :: nat
  format :: pystr
  thumbnail :: "pystr option"
  debug_info :: pystr

text \<open>The dictionary \<open>extract_content_from_pptx\<close> builds for one slide.\<close>

record slide_content =
  slide_number :: nat
  text_content :: pystr
  images :: "image_data list"
  image_count :: nat

text \<open>An exception, as the handler of \<open>compare_presentations\<close> reads it.\<close>

record exn =
  exn_str :: pystr
  exn_frames :: pystr

text \<open>
  A shape as the document library presents it, reduced to what the source reads. A read
  that the source guards by no \<open>try\<close> may raise, and then the value is \<open>Inl\<close> of the
  exception:
  \<^item> \<open>shape_type\<close>: \<open>getattr(shape, "shape_type", None)\<close>, read before the first
    \<open>try\<close> of the walk; \<open>Inr None\<close> when the attribute is missing (the default of
    \<open>getattr\<close> covers \<open>AttributeError\<close> only);
  \<^item> \<open>image_blob\<close>: \<open>shape.image.blob\<close>, \<open>None\<close> when the attribute is missing or
    reading it raises (the reads are inside a \<open>try\<close>);
  \<^item> \<open>fill_blob\<close>: \<open>shape.fill.fore_color.picture.blob\<close> when the shape has a fill
    of type 2, \<open>None\<close> when it has not or a read raises (inside a \<open>try\<close>);
  \<^item> \<open>text'\<close>: \<open>shape.text\<close>; \<open>Inr None\<close> when \<open>hasattr(shape, "text")\<close> is false,
    \<open>Inl\<close> when the read raises another exception than \<open>AttributeError\<close>;
  \<^item> \<open>table\<close>: the cell texts of \<open>shape.table.rows\<close>, row by row, when
    \<open>shape.has_table\<close> exists and is true; \<open>Inl\<close> when one of these reads raises;
  \<^item> \<open>shapes\<close>: the children that iterating \<open>shape.shapes\<close> yields (none when the
    read raises, which happens inside a \<open>try\<close>).
\<close>

datatype shape =
  Shape (shape_type: "exn + int option") (image_blob: "bytes option") (fill_blob: "bytes option")
    (text': "exn + pystr option") (table: "exn + pystr list list option") (shapes: "shape list")

text \<open>
  The libraries and the interpreter: \<open>hashlib.md5(...).hexdigest()\<close> (which raises
  where the digest is not available), \<open>PIL.Image.open\<close> with the size and format of the
  opened image, the base64 text of the PNG thumbnail (\<open>None\<close> when \<open>thumbnail\<close> or
  \<open>save\<close> raises), the text an f-string gives for a shape type (a member of the
  enumeration of the shape types or \<open>None\<close>, whose formatting does not raise), and
  \<open>Presentation(BytesIO(file_content))\<close>, which yields the slides, each a list of
  shapes, or raises. \<open>recursion_room\<close> is the number of nested calls of
  \<open>extract_images_from_shape\<close> that fit under the recursion limit of the interpreter
  where \<open>extract_content_from_pptx\<close> calls it, and \<open>recursion_error\<close> the
  \<open>RecursionError\<close> that the call which does not fit raises. The limit is counted in
  calls of the walk: what a walk calls besides itself is taken to fit where the walk
  fits.
\<close>

record 'img libs =
  md5_hexdigest :: "bytes \<Rightarrow> pystr option"
  image_open :: "bytes \<Rightarrow> 'img option"
  image_size :: "'img \<Rightarrow> nat \<times> nat"
  image_format :: "'img \<Rightarrow> pystr"
  png_base64 :: "'img \<Rightarrow> pystr option"
  shape_type_str :: "int option \<Rightarrow> pystr"
  Presentation :: "bytes \<Rightarrow> exn + shape list list"
  recursion_room :: nat
  recursion_error :: exn

section \<open>Extraction\<close>

definition process_image_blob :: "'img libs \<Rightarrow> bytes \<Rightarrow> pystr \<Rightarrow> image_data option" where
  "process_image_blob L blob dbg =
     (case md5_hexdigest L blob of
        None \<Rightarrow> None
      | Some image_hash \<Rightarrow>
          let (w, h, image_format') =
                (case image_open L blob of
                   Some img \<Rightarrow> (fst (image_size L img), snd (image_size L img), image_format L img)
                 | None \<Rightarrow> (0, 0, ascii ''Unknown''));
              thumbnail' =
                (case image_open L blob of
                   Some img \<Rightarrow>
                     (case png_base64 L img of
                        Some img_str \<Rightarrow> Some (ascii ''data:image/png;base64,'' @ img_str)
                      | None \<Rightarrow> None)
                 | None \<Rightarrow> None)
          in Some \<lparr>hash = image_hash, size' = length blob, width = w, height = h,
                    format = image_format', thumbnail = thumbnail', debug_info = dbg\<rparr>)"

text \<open>\<open>if img_data: images.append(img_data)\<close>, for a blob that may be missing.\<close>

definition blob_images :: "'img libs \<Rightarrow> bytes option \<Rightarrow> pystr \<Rightarrow> image_data list" where
  "blob_images L blob dbg =
     (case blob of
        None \<Rightarrow> []
      | Some b \<Rightarrow>
          (case process_image_blob L b dbg of None \<Rightarrow> [] | Some img_data \<Rightarrow> [img_data]))"

text \<open>
  The walk. Its first argument after the libraries is the number of nested calls that
  still fit under the recursion limit: a call that does not fit raises
  \<open>RecursionError\<close>. The read of \<open>shape_type\<close> is outside every \<open>try\<close>, so an
  exception of it leaves the walk. \<open>group_loop\<close> is the loop over \<open>shape.shapes\<close>
  inside its \<open>try\<close>: an exception of a child's walk (a \<open>RecursionError\<close> too, which is
  an \<open>Exception\<close>) ends the loop, and \<open>except Exception: pass\<close> keeps the images
  collected so far.
\<close>

fun extract_images_from_shape :: "'img libs \<Rightarrow> nat \<Rightarrow> shape \<Rightarrow> pystr \<Rightarrow> exn + image_data list"
  and group_loop :: "'img libs \<Rightarrow> nat \<Rightarrow> shape list \<Rightarrow> pystr \<Rightarrow> image_data list" where
  "extract_images_from_shape L 0 sh parent_info = Inl (recursion_error L)"
| "extract_images_from_shape L (Suc room) (Shape st img fill tx tbl children) parent_info =
     (case st of
        Inl e \<Rightarrow> Inl e
      | Inr stype \<Rightarrow>
          Inr ((if stype = Some 13 then blob_images L img
                  (parent_info @ ascii '' -> Shape type: '' @ shape_type_str L stype) else []) @
               blob_images L fill
                 (parent_info @ ascii '' -> Shape type: '' @ shape_type_str L stype @
                  ascii '' (from fill)'') @
               (if stype = Some 14 then blob_images L img
                  (parent_info @ ascii '' -> Shape type: '' @ shape_type_str L stype @
                   ascii '' (from placeholder)'') else []) @
               (if stype = Some 6 then
                  group_loop L room children
                    (parent_info @ ascii '' -> Shape type: '' @ shape_type_str L stype @
                     ascii '' (group child)'')
                else [])))"
| "group_loop L room [] info = []"
| "group_loop L room (child_shape # rest) info =
     (case extract_images_from_shape L room child_shape info of
        Inl e \<Rightarrow> []
      | Inr child_images \<Rightarrow> child_images @ group_loop L room rest info)"

text \<open>The loop over the cells of one row, and the loop over the rows of a table.\<close>

fun cells_loop :: "pystr list \<Rightarrow> pystr list \<Rightarrow> pystr list" where
  "cells_loop [] slide_text = slide_text"
| "cells_loop (cell # cells) slide_text =
     cells_loop cells (if strip cell \<noteq> [] then slide_text @ [strip cell] else slide_text)"

fun rows_loop :: "pystr list list \<Rightarrow> pystr list \<Rightarrow> pystr list" where
  "rows_loop [] slide_text = slide_text"
| "rows_loop (row # rows) slide_text = rows_loop rows (cells_loop row slide_text)"

text \<open>
  The loop over the shapes of one slide, with its two accumulators. The reads of the
  text and of the table and the call of the walk are in no \<open>try\<close>: an exception of one
  of them leaves \<open>extract_content_from_pptx\<close>.
\<close>

fun shapes_loop ::
  "'img libs \<Rightarrow> nat \<Rightarrow> shape list \<Rightarrow> pystr list \<Rightarrow> image_data list \<Rightarrow>
     exn + pystr list \<times> image_data list" where
  "shapes_loop L n [] slide_text slide_images = Inr (slide_text, slide_images)"
| "shapes_loop L n (sh # rest) slide_text slide_images =
     (case text' sh of
        Inl e \<Rightarrow> Inl e
      | Inr shape_text \<Rightarrow>
          (case table sh of
             Inl e \<Rightarrow> Inl e
           | Inr shape_table \<Rightarrow>
               (case extract_images_from_shape L (recursion_room L) sh
                       (ascii ''Slide '' @ str_nat n) of
                  Inl e \<Rightarrow> Inl e
                | Inr imgs \<Rightarrow>
                    shapes_loop L n rest
                      (let slide_text1 =
                             (case shape_text of
                                Some t \<Rightarrow>
                                  if strip t \<noteq> [] then slide_text @ [strip t] else slide_text
                              | None \<Rightarrow> slide_text)
                       in case shape_table of
                            Some rows \<Rightarrow> rows_loop rows slide_text1
                          | None \<Rightarrow> slide_text1)
                      (if imgs \<noteq> [] then slide_images @ imgs else slide_images))))"

definition extract_slide :: "'img libs \<Rightarrow> nat \<Rightarrow> shape list \<Rightarrow> exn + slide_content" where
  "extract_slide L n slide =
     (case shapes_loop L n slide [] [] of
        Inl e \<Rightarrow> Inl e
      | Inr (slide_text, slide_images) \<Rightarrow>
          Inr \<lparr>slide_number = n, text_content = join [10] slide_text, images = slide_images,
               image_count = length slide_images\<rparr>)"



section \<open>The line diff of \<open>difflib\<close>\<close>

text \<open>
  \<open>compare_presentations\<close> calls \<open>difflib.ndiff\<close> of the standard library. The
  definitions of this section follow \<open>difflib.py\<close> of CPython 3.11:
  \<open>SequenceMatcher\<close> (\<open>__chain_b\<close>, \<open>find_longest_match\<close>, \<open>get_matching_blocks\<close>,
  \<open>get_opcodes\<close>, the three ratios) and \<open>Differ\<close> (\<open>compare\<close>, \<open>_dump\<close>,
  \<open>_plain_replace\<close>, \<open>_fancy_replace\<close>, \<open>_fancy_helper\<close>, \<open>_qformat\<close>). A generator
  is the list of what it yields. The matcher caches \<open>b2j\<close>, the matching blocks and
  the opcodes per pair of sequences; the cache is reset whenever a sequence changes, so
  the functions here recompute them from the two sequences.
\<close>

datatype tag = Replace | Delete | Insert | Equal

type_synonym match = "nat \<times> nat \<times> nat"

type_synonym opcode = "tag \<times> nat \<times> nat \<times> nat \<times> nat"

text \<open>
  \<open>__chain_b\<close>: \<open>b2j\<close> maps an element of \<open>b\<close> to the indices where it occurs, in
  increasing order. The keys that \<open>isjunk\<close> accepts are deleted, then (in a sequence
  of 200 elements or more) the keys with more than \<open>n // 100 + 1\<close> occurrences.
  \<open>bjunk\<close> is the set of deleted junk keys, given by its membership test.
\<close>

fun b2j_loop :: "'a list \<Rightarrow> nat \<Rightarrow> ('a \<rightharpoonup> nat list) \<Rightarrow> ('a \<rightharpoonup> nat list)" where
  "b2j_loop [] i b2j = b2j"
| "b2j_loop (elt # rest) i b2j =
     b2j_loop rest (Suc i)
       (b2j(elt \<mapsto> (case b2j elt of None \<Rightarrow> [] | Some indices \<Rightarrow> indices) @ [i]))"

definition chain_b ::
  "('a \<Rightarrow> bool) option \<Rightarrow> 'a list \<Rightarrow> ('a \<rightharpoonup> nat list) \<times> ('a \<Rightarrow> bool)" where
  "chain_b isjunk b =
     (let b2j0 = b2j_loop b 0 Map.empty;
          junk = (\<lambda>elt. case isjunk of None \<Rightarrow> False | Some f \<Rightarrow> b2j0 elt \<noteq> None \<and> f elt);
          b2j1 = (\<lambda>elt. if junk elt then None else b2j0 elt);
          n = length b;
          popular = (\<lambda>elt. 200 \<le> n \<and>
                      (case b2j1 elt of None \<Rightarrow> False | Some idxs \<Rightarrow> n div 100 + 1 < length idxs));
          b2j2 = (\<lambda>elt. if popular elt then None else b2j1 elt)
      in (b2j2, junk))"

text \<open>
  \<open>find_longest_match\<close>. \<open>j2lenget j2len j\<close> is \<open>j2len.get(j-1, 0)\<close>: the key \<open>-1\<close>
  is never stored. \<open>flm_inner\<close> is the loop over \<open>b2j.get(a[i], nothing)\<close> with its
  \<open>continue\<close> and \<open>break\<close>, \<open>flm_outer\<close> the loop over \<open>range(alo, ahi)\<close>, and
  \<open>extend_left\<close>, \<open>extend_right\<close> are the four \<open>while\<close> loops that extend the best
  match, first by elements that are not junk, then by junk.
\<close>

definition j2lenget :: "(nat \<rightharpoonup> nat) \<Rightarrow> nat \<Rightarrow> nat" where
  "j2lenget j2len j =
     (case j of 0 \<Rightarrow> 0 | Suc j' \<Rightarrow> (case j2len j' of None \<Rightarrow> 0 | Some k \<Rightarrow> k))"

fun flm_inner ::
  "nat list \<Rightarrow> nat \<Rightarrow> nat \<Rightarrow> nat \<Rightarrow> (nat \<rightharpoonup> nat) \<Rightarrow> (nat \<rightharpoonup> nat) \<Rightarrow> match \<Rightarrow>
     (nat \<rightharpoonup> nat) \<times> match" where
  "flm_inner [] i blo bhi j2len newj2len best = (newj2len, best)"
| "flm_inner (j # js) i blo bhi j2len newj2len (besti, bestj, bestsize) =
     (if j < blo then flm_inner js i blo bhi j2len newj2len (besti, bestj, bestsize)
      else if bhi \<le> j then (newj2len, (besti, bestj, bestsize))
      else
        (let k = j2lenget j2len j + 1
         in flm_inner js i blo bhi j2len (newj2len(j \<mapsto> k))
              (if bestsize < k then (i + 1 - k, j + 1 - k, k) else (besti, bestj, bestsize))))"

fun flm_outer ::
  "'a list \<Rightarrow> ('a \<rightharpoonup> nat list) \<Rightarrow> nat list \<Rightarrow> nat \<Rightarrow> nat \<Rightarrow> (nat \<rightharpoonup> nat) \<Rightarrow> match \<Rightarrow> match" where
  "flm_outer a b2j [] blo bhi j2len best = best"
| "flm_outer a b2j (i # rest) blo bhi j2len best =
     (let (newj2len, best') =
            flm_inner (case b2j (a ! i) of None \<Rightarrow> [] | Some js \<Rightarrow> js) i blo bhi j2len Map.empty best
      in flm_outer a b2j rest blo bhi newj2len best')"

function extend_left ::
  "'a list \<Rightarrow> 'a list \<Rightarrow> ('a \<Rightarrow> bool) \<Rightarrow> nat \<Rightarrow> nat \<Rightarrow> match \<Rightarrow> match" where
  "extend_left a b p alo blo (besti, bestj, bestsize) =
     (if alo < besti \<and> blo < bestj \<and> p (b ! (bestj - 1)) \<and> a ! (besti - 1) = b ! (bestj - 1)
      then extend_left a b p alo blo (besti - 1, bestj - 1, bestsize + 1)
      else (besti, bestj, bestsize))"
  by pat_completeness auto
termination
  by (relation "measure (\<lambda>(a, b, p, alo, blo, besti, bestj, bestsize). besti)") auto

function extend_right ::
  "'a list \<Rightarrow> 'a list \<Rightarrow> ('a \<Rightarrow> bool) \<Rightarrow> nat \<Rightarrow> nat \<Rightarrow> match \<Rightarrow> match" where
  "extend_right a b p ahi bhi (besti, bestj, bestsize) =
     (if besti + bestsize < ahi \<and> bestj + bestsize < bhi \<and> p (b ! (bestj + bestsize)) \<and>
         a ! (besti + bestsize) = b ! (bestj + bestsize)
      then extend_right a b p ahi bhi (besti, bestj, bestsize + 1)
      else (besti, bestj, bestsize))"
  by pat_completeness auto
termination
  by (relation "measure (\<lambda>(a, b, p, ahi, bhi, besti, bestj, bestsize). ahi - (besti + bestsize))") auto

declare extend_left.simps [simp del] extend_right.simps [simp del]

definition find_longest_match ::
  "'a list \<Rightarrow> 'a list \<Rightarrow> ('a \<rightharpoonup> nat list) \<Rightarrow> ('a \<Rightarrow> bool) \<Rightarrow> nat \<Rightarrow> nat \<Rightarrow> nat \<Rightarrow> nat \<Rightarrow> match" where
  "find_longest_match a b b2j isbjunk alo ahi blo bhi =
     extend_right a b isbjunk ahi bhi
       (extend_left a b isbjunk alo blo
          (extend_right a b (\<lambda>x. \<not> isbjunk x) ahi bhi
             (extend_left a b (\<lambda>x. \<not> isbjunk x) alo blo
                (flm_outer a b2j [alo..<ahi] blo bhi Map.empty (alo, blo, 0)))))"

text \<open>
  The match that \<open>find_longest_match\<close> returns lies in \<open>a[alo:ahi]\<close>; the loop of
  \<open>get_matching_blocks\<close> terminates by that.
\<close>

definition j2len_le :: "nat \<Rightarrow> nat \<Rightarrow> (nat \<rightharpoonup> nat) \<Rightarrow> bool" where
  "j2len_le alo i j2len \<longleftrightarrow> (\<forall>j k. j2len j = Some k \<longrightarrow> alo + k \<le> i)"

definition best_within :: "nat \<Rightarrow> nat \<Rightarrow> match \<Rightarrow> bool" where
  "best_within alo i best \<longleftrightarrow> (case best of (bi, bj, bs) \<Rightarrow> alo \<le> bi \<and> bi + bs \<le> i)"

lemma j2lenget_le: "j2len_le alo i j2len \<Longrightarrow> alo + j2lenget j2len j \<le> i \<or> j2lenget j2len j = 0"
  by (auto simp: j2len_le_def j2lenget_def split: nat.splits option.splits)

lemma flm_inner_within:
  assumes "alo \<le> i" "j2len_le alo i j2len" "j2len_le alo (Suc i) newj2len"
    "best_within alo (Suc i) best" "flm_inner js i blo bhi j2len newj2len best = (nj, best')"
  shows "j2len_le alo (Suc i) nj \<and> best_within alo (Suc i) best'"
  using assms
proof (induction js i blo bhi j2len newj2len best rule: flm_inner.induct)
  case (1 i blo bhi j2len newj2len best)
  then show ?case by simp
next
  case (2 j js i blo bhi j2len newj2len besti bestj bestsize)
  show ?case
  proof (cases "j < blo")
    case True
    with 2 show ?thesis by simp
  next
    case nlo: False
    show ?thesis
    proof (cases "bhi \<le> j")
      case True
      with nlo 2 show ?thesis by simp
    next
      case False
      let ?k = "j2lenget j2len j + 1"
      have k: "alo + ?k \<le> Suc i"
        using j2lenget_le [OF "2.prems"(2), of j] "2.prems"(1) by auto
      have a: "j2len_le alo (Suc i) (newj2len(j \<mapsto> ?k))"
        using "2.prems"(3) k by (auto simp: j2len_le_def)
      have b: "best_within alo (Suc i)
          (if bestsize < ?k then (i + 1 - ?k, j + 1 - ?k, ?k) else (besti, bestj, bestsize))"
        using "2.prems"(4) k by (auto simp: best_within_def)
      have c: "flm_inner js i blo bhi j2len (newj2len(j \<mapsto> ?k))
          (if bestsize < ?k then (i + 1 - ?k, j + 1 - ?k, ?k) else (besti, bestj, bestsize)) = (nj, best')"
        using "2.prems"(5) nlo False by (auto simp: Let_def split: if_splits)
      show ?thesis
        by (rule "2.IH"(2) [OF nlo False refl "2.prems"(1,2) a b c])
    qed
  qed
qed

lemma flm_outer_within:
  assumes "alo \<le> i" "j2len_le alo i j2len" "best_within alo i best"
  shows "best_within alo (max i ahi) (flm_outer a b2j [i..<ahi] blo bhi j2len best)"
  using assms
proof (induction "ahi - i" arbitrary: i j2len best)
  case 0
  then show ?case by (simp add: max_def)
next
  case (Suc n)
  then have lt: "i < ahi" by simp
  obtain nj best' where r:
    "flm_inner (case b2j (a ! i) of None \<Rightarrow> [] | Some js \<Rightarrow> js) i blo bhi j2len Map.empty best = (nj, best')"
    by (cases "flm_inner (case b2j (a ! i) of None \<Rightarrow> [] | Some js \<Rightarrow> js) i blo bhi j2len Map.empty best")
  have bw: "best_within alo (Suc i) best"
    using Suc.prems(3) by (auto simp: best_within_def)
  have e: "j2len_le alo (Suc i) Map.empty" by (simp add: j2len_le_def)
  from flm_inner_within [OF Suc.prems(1,2) e bw r]
  have inv: "j2len_le alo (Suc i) nj" "best_within alo (Suc i) best'" by simp_all
  have "best_within alo (max (Suc i) ahi) (flm_outer a b2j [Suc i..<ahi] blo bhi nj best')"
    using Suc.hyps(1) [of "Suc i" nj best'] Suc.hyps(2) Suc.prems(1) inv by simp
  then show ?case
    using lt r by (simp add: upt_conv_Cons max_def)
qed

lemma extend_left_within:
  "best_within alo i best \<Longrightarrow> best_within alo i (extend_left a b p alo blo best)"
proof (induction a b p alo blo best rule: extend_left.induct)
  case (1 a b p alo blo besti bestj bestsize)
  show ?case
  proof (cases "alo < besti \<and> blo < bestj \<and> p (b ! (bestj - 1)) \<and> a ! (besti - 1) = b ! (bestj - 1)")
    case True
    have "best_within alo i (besti - 1, bestj - 1, bestsize + 1)"
      using "1.prems" True by (auto simp: best_within_def)
    from "1.IH" [OF True this] True show ?thesis
      by (subst extend_left.simps) simp
  next
    case False
    with "1.prems" show ?thesis by (subst extend_left.simps) auto
  qed
qed

lemma extend_right_within:
  "best_within alo (max alo ahi) best \<Longrightarrow> best_within alo (max alo ahi) (extend_right a b p ahi bhi best)"
proof (induction a b p ahi bhi best rule: extend_right.induct)
  case (1 a b p ahi bhi besti bestj bestsize)
  show ?case
  proof (cases "besti + bestsize < ahi \<and> bestj + bestsize < bhi \<and> p (b ! (bestj + bestsize)) \<and>
         a ! (besti + bestsize) = b ! (bestj + bestsize)")
    case True
    have "best_within alo (max alo ahi) (besti, bestj, bestsize + 1)"
      using "1.prems" True by (auto simp: best_within_def)
    from "1.IH" [OF True this] True show ?thesis
      by (subst extend_right.simps) simp
  next
    case False
    with "1.prems" show ?thesis by (subst extend_right.simps) auto
  qed
qed

lemma find_longest_match_within:
  "best_within alo (max alo ahi) (find_longest_match a b b2j isbjunk alo ahi blo bhi)"
  unfolding find_longest_match_def
  by (intro extend_right_within extend_left_within flm_outer_within)
     (simp_all add: j2len_le_def best_within_def)

lemma find_longest_match_size:
  assumes "find_longest_match a b b2j isbjunk alo ahi blo bhi = (i, j, k)"
  shows "alo \<le> i" "i + k \<le> max alo ahi"
  using find_longest_match_within [of alo ahi a b b2j isbjunk blo bhi] assms
  by (simp_all add: best_within_def)

text \<open>
  \<open>get_matching_blocks\<close>. The list \<open>queue\<close> is used as a stack (\<open>pop()\<close> takes the
  element appended last), so its last element is the head of the list here.
\<close>

type_synonym region = "nat \<times> nat \<times> nat \<times> nat"

definition region_size :: "region \<Rightarrow> nat" where
  "region_size r = (case r of (alo, ahi, blo, bhi) \<Rightarrow> 2 * (ahi - alo) + 1)"

lemma find_longest_match_within_sym:
  "(i, j, k) = find_longest_match a b b2j isbjunk alo ahi blo bhi \<Longrightarrow>
   alo \<le> i \<and> i + k \<le> max alo ahi"
  using find_longest_match_size [of a b b2j isbjunk alo ahi blo bhi i j k] by simp

function blocks_loop ::
  "'a list \<Rightarrow> 'a list \<Rightarrow> ('a \<rightharpoonup> nat list) \<Rightarrow> ('a \<Rightarrow> bool) \<Rightarrow> region list \<Rightarrow> match list \<Rightarrow>
     match list" where
  "blocks_loop a b b2j isbjunk [] matching_blocks = matching_blocks"
| "blocks_loop a b b2j isbjunk ((alo, ahi, blo, bhi) # queue) matching_blocks =
     (case find_longest_match a b b2j isbjunk alo ahi blo bhi of
        (i, j, k) \<Rightarrow>
          if k \<noteq> 0 then
            blocks_loop a b b2j isbjunk
              ((if i + k < ahi \<and> j + k < bhi then [(i + k, ahi, j + k, bhi)] else []) @
               (if alo < i \<and> blo < j then [(alo, i, blo, j)] else []) @ queue)
              (matching_blocks @ [(i, j, k)])
          else blocks_loop a b b2j isbjunk queue matching_blocks)"
  by pat_completeness auto
termination
  apply (relation "measure (\<lambda>(a, b, b2j, isbjunk, queue, mbs). sum_list (map region_size queue))")
    apply simp
   apply (auto simp: region_size_def max_def dest!: find_longest_match_within_sym split: if_splits)
  done

declare blocks_loop.simps [simp del]

text \<open>The loop that collapses adjacent equal blocks, after \<open>matching_blocks.sort()\<close>.\<close>

fun collapse_loop :: "match list \<Rightarrow> match \<Rightarrow> match list \<Rightarrow> match \<times> match list" where
  "collapse_loop [] cur non_adjacent = (cur, non_adjacent)"
| "collapse_loop ((i2, j2, k2) # rest) (i1, j1, k1) non_adjacent =
     (if i1 + k1 = i2 \<and> j1 + k1 = j2 then collapse_loop rest (i1, j1, k1 + k2) non_adjacent
      else collapse_loop rest (i2, j2, k2)
             (if k1 \<noteq> 0 then non_adjacent @ [(i1, j1, k1)] else non_adjacent))"

definition get_matching_blocks :: "('a \<Rightarrow> bool) option \<Rightarrow> 'a list \<Rightarrow> 'a list \<Rightarrow> match list" where
  "get_matching_blocks isjunk a b =
     (case chain_b isjunk b of
        (b2j, bjunk) \<Rightarrow>
          (case collapse_loop
                  (sort (blocks_loop a b b2j bjunk [(0, length a, 0, length b)] []))
                  (0, 0, 0) [] of
             ((i1, j1, k1), non_adjacent) \<Rightarrow>
               (if k1 \<noteq> 0 then non_adjacent @ [(i1, j1, k1)] else non_adjacent) @
               [(length a, length b, 0)]))"

fun opcodes_loop :: "match list \<Rightarrow> nat \<Rightarrow> nat \<Rightarrow> opcode list \<Rightarrow> opcode list" where
  "opcodes_loop [] i j answer = answer"
| "opcodes_loop ((ai, bj, sz) # rest) i j answer =
     opcodes_loop rest (ai + sz) (bj + sz)
       ((answer @
         (if i < ai \<and> j < bj then [(Replace, i, ai, j, bj)]
          else if i < ai then [(Delete, i, ai, j, bj)]
          else if j < bj then [(Insert, i, ai, j, bj)]
          else [])) @
        (if sz \<noteq> 0 then [(Equal, ai, ai + sz, bj, bj + sz)] else []))"

definition get_opcodes :: "('a \<Rightarrow> bool) option \<Rightarrow> 'a list \<Rightarrow> 'a list \<Rightarrow> opcode list" where
  "get_opcodes isjunk a b = opcodes_loop (get_matching_blocks isjunk a b) 0 0 []"

text \<open>
  The ratios are floats in the source, \<open>2.0 * matches / length\<close>, and are compared with
  each other and with \<open>0.74\<close> and \<open>0.75\<close>; they are exact rationals here. Rounding
  is monotone, so the comparisons agree for all sequences whose lengths a double
  represents exactly with room to spare.
\<close>

definition calculate_ratio :: "nat \<Rightarrow> nat \<Rightarrow> rat" where
  "calculate_ratio matches len = (if len \<noteq> 0 then 2 * of_nat matches / of_nat len else 1)"

definition ratio :: "('a \<Rightarrow> bool) option \<Rightarrow> 'a list \<Rightarrow> 'a list \<Rightarrow> rat" where
  "ratio isjunk a b =
     calculate_ratio (sum_list (map (\<lambda>(i, j, k). k) (get_matching_blocks isjunk a b)))
       (length a + length b)"

fun fullbcount_loop :: "'a list \<Rightarrow> ('a \<rightharpoonup> nat) \<Rightarrow> ('a \<rightharpoonup> nat)" where
  "fullbcount_loop [] fullbcount = fullbcount"
| "fullbcount_loop (elt # rest) fullbcount =
     fullbcount_loop rest
       (fullbcount(elt \<mapsto> (case fullbcount elt of None \<Rightarrow> 0 | Some n \<Rightarrow> n) + 1))"

fun avail_loop :: "'a list \<Rightarrow> ('a \<rightharpoonup> nat) \<Rightarrow> ('a \<rightharpoonup> int) \<Rightarrow> nat \<Rightarrow> nat" where
  "avail_loop [] fullbcount avail matches = matches"
| "avail_loop (elt # rest) fullbcount avail matches =
     (let numb = (case avail elt of
                    Some n \<Rightarrow> n
                  | None \<Rightarrow> (case fullbcount elt of None \<Rightarrow> 0 | Some n \<Rightarrow> int n))
      in avail_loop rest fullbcount (avail(elt \<mapsto> numb - 1))
           (if 0 < numb then matches + 1 else matches))"

definition quick_ratio :: "'a list \<Rightarrow> 'a list \<Rightarrow> rat" where
  "quick_ratio a b =
     calculate_ratio (avail_loop a (fullbcount_loop b Map.empty) Map.empty 0) (length a + length b)"

definition real_quick_ratio :: "'a list \<Rightarrow> 'a list \<Rightarrow> rat" where
  "real_quick_ratio a b = calculate_ratio (min (length a) (length b)) (length a + length b)"

definition IS_CHARACTER_JUNK :: "nat \<Rightarrow> bool" where
  "IS_CHARACTER_JUNK ch \<longleftrightarrow> ch = 32 \<or> ch = 9"

text \<open>
  \<open>Differ\<close>. The tags are the code points of \<open>-\<close> (45), \<open>+\<close> (43), the blank (32),
  \<open>?\<close> (63) and \<open>^\<close> (94). The \<open>assert\<close> of \<open>_plain_replace\<close> holds at its only call, in
  \<open>_fancy_replace\<close>, which is entered with \<open>alo < ahi\<close> and \<open>blo < bhi\<close> only.
\<close>

definition dump :: "nat \<Rightarrow> pystr list \<Rightarrow> nat \<Rightarrow> nat \<Rightarrow> pystr list" where
  "dump tg x lo hi = map (\<lambda>i. tg # 32 # x ! i) [lo..<hi]"

definition plain_replace :: "pystr list \<Rightarrow> nat \<Rightarrow> nat \<Rightarrow> pystr list \<Rightarrow> nat \<Rightarrow> nat \<Rightarrow> pystr list" where
  "plain_replace a alo ahi b blo bhi =
     (if bhi - blo < ahi - alo then dump 43 b blo bhi @ dump 45 a alo ahi
      else dump 45 a alo ahi @ dump 43 b blo bhi)"

text \<open>
  The search of \<open>_fancy_replace\<close> for the best pair of similar lines. The state is
  \<open>best_ratio\<close>, the pair \<open>(best_i, best_j)\<close> (unbound until a pair beats
  \<open>best_ratio\<close>), and the pair \<open>(eqi, eqj)\<close>. \<open>synch_point\<close> is the decision after the
  loops: no synch point (a plain replace), the identical pair, or the close pair. The
  close pair is read only when \<open>best_ratio\<close> has reached \<open>0.75\<close>, which an assignment
  of the pair has caused.
\<close>

type_synonym search_state = "rat \<times> (nat \<times> nat) option \<times> (nat \<times> nat) option"

fun search_inner :: "pystr list \<Rightarrow> pystr \<Rightarrow> nat \<Rightarrow> nat list \<Rightarrow> search_state \<Rightarrow> search_state" where
  "search_inner a bj j [] st = st"
| "search_inner a bj j (i # rest) (best_ratio, best, eq) =
     (if a ! i = bj then
        search_inner a bj j rest (best_ratio, best, if eq = None then Some (i, j) else eq)
      else if best_ratio < real_quick_ratio (a ! i) bj \<and> best_ratio < quick_ratio (a ! i) bj \<and>
              best_ratio < ratio (Some IS_CHARACTER_JUNK) (a ! i) bj
      then search_inner a bj j rest (ratio (Some IS_CHARACTER_JUNK) (a ! i) bj, Some (i, j), eq)
      else search_inner a bj j rest (best_ratio, best, eq))"

fun search_outer ::
  "pystr list \<Rightarrow> nat \<Rightarrow> nat \<Rightarrow> pystr list \<Rightarrow> nat list \<Rightarrow> search_state \<Rightarrow> search_state" where
  "search_outer a alo ahi b [] st = st"
| "search_outer a alo ahi b (j # rest) st =
     search_outer a alo ahi b rest (search_inner a (b ! j) j [alo..<ahi] st)"

definition synch_point ::
  "pystr list \<Rightarrow> nat \<Rightarrow> nat \<Rightarrow> pystr list \<Rightarrow> nat \<Rightarrow> nat \<Rightarrow> ((nat \<times> nat) \<times> bool) option" where
  "synch_point a alo ahi b blo bhi =
     (case search_outer a alo ahi b [blo..<bhi] (74 / 100, None, None) of
        (best_ratio, best, eq) \<Rightarrow>
          if best_ratio < 75 / 100 then
            (case eq of None \<Rightarrow> None | Some p \<Rightarrow> Some (p, True))
          else (case best of None \<Rightarrow> None | Some p \<Rightarrow> Some (p, False)))"

fun tags_loop :: "opcode list \<Rightarrow> pystr \<Rightarrow> pystr \<Rightarrow> pystr \<times> pystr" where
  "tags_loop [] atags btags = (atags, btags)"
| "tags_loop ((tg, ai1, ai2, bj1, bj2) # rest) atags btags =
     (case tg of
        Replace \<Rightarrow> tags_loop rest (atags @ replicate (ai2 - ai1) 94) (btags @ replicate (bj2 - bj1) 94)
      | Delete \<Rightarrow> tags_loop rest (atags @ replicate (ai2 - ai1) 45) btags
      | Insert \<Rightarrow> tags_loop rest atags (btags @ replicate (bj2 - bj1) 43)
      | Equal \<Rightarrow> tags_loop rest (atags @ replicate (ai2 - ai1) 32) (btags @ replicate (bj2 - bj1) 32))"

definition keep_original_ws :: "pystr \<Rightarrow> pystr \<Rightarrow> pystr" where
  "keep_original_ws s tag_s = map (\<lambda>(c, tag_c). if tag_c = 32 \<and> isspace c then c else tag_c) (zip s tag_s)"

definition qformat :: "pystr \<Rightarrow> pystr \<Rightarrow> pystr \<Rightarrow> pystr \<Rightarrow> pystr list" where
  "qformat aline bline atags btags =
     [ascii ''- '' @ aline] @
     (if rstrip (keep_original_ws aline atags) \<noteq> []
      then [ascii ''? '' @ rstrip (keep_original_ws aline atags) @ [10]] else []) @
     [ascii ''+ '' @ bline] @
     (if rstrip (keep_original_ws bline btags) \<noteq> []
      then [ascii ''? '' @ rstrip (keep_original_ws bline btags) @ [10]] else [])"

definition search_ok ::
  "pystr list \<Rightarrow> pystr list \<Rightarrow> nat \<Rightarrow> nat \<Rightarrow> nat \<Rightarrow> nat \<Rightarrow> search_state \<Rightarrow> bool" where
  "search_ok a b alo ahi blo bhi st \<longleftrightarrow>
     (case st of (r, best, eq) \<Rightarrow>
        (case best of None \<Rightarrow> r < 75 / 100
         | Some (i, j) \<Rightarrow> alo \<le> i \<and> i < ahi \<and> blo \<le> j \<and> j < bhi) \<and>
        (case eq of None \<Rightarrow> True
         | Some (i, j) \<Rightarrow> alo \<le> i \<and> i < ahi \<and> blo \<le> j \<and> j < bhi \<and> a ! i = b ! j))"

lemma search_inner_ok:
  "search_ok a b alo ahi blo bhi st \<Longrightarrow> blo \<le> j \<Longrightarrow> j < bhi \<Longrightarrow> set is \<subseteq> {alo..<ahi} \<Longrightarrow>
   search_ok a b alo ahi blo bhi (search_inner a (b ! j) j is st)"
proof (induction "is" arbitrary: st)
  case Nil
  then show ?case by simp
next
  case (Cons i rest)
  obtain r best eq where st: "st = (r, best, eq)" by (cases st)
  have i: "alo \<le> i" "i < ahi" using Cons.prems(4) by auto
  have rest: "set rest \<subseteq> {alo..<ahi}" using Cons.prems(4) by auto
  show ?case
  proof (cases "a ! i = b ! j")
    case True
    have "search_ok a b alo ahi blo bhi (r, best, if eq = None then Some (i, j) else eq)"
      using Cons.prems(1-3) i True by (auto simp: search_ok_def st split: option.splits)
    from Cons.IH [OF this Cons.prems(2,3) rest] True show ?thesis by (simp add: st)
  next
    case False
    show ?thesis
    proof (cases "r < real_quick_ratio (a ! i) (b ! j) \<and> r < quick_ratio (a ! i) (b ! j) \<and>
              r < ratio (Some IS_CHARACTER_JUNK) (a ! i) (b ! j)")
      case True
      have "search_ok a b alo ahi blo bhi (ratio (Some IS_CHARACTER_JUNK) (a ! i) (b ! j), Some (i, j), eq)"
        using Cons.prems(1-3) i by (auto simp: search_ok_def st split: option.splits)
      from Cons.IH [OF this Cons.prems(2,3) rest] True False show ?thesis by (simp add: st)
    next
      case nb: False
      from Cons.IH [OF Cons.prems(1-3) rest] nb False show ?thesis by (auto simp add: st)
    qed
  qed
qed

lemma search_outer_ok:
  "search_ok a b alo ahi blo bhi st \<Longrightarrow> set js \<subseteq> {blo..<bhi} \<Longrightarrow>
   search_ok a b alo ahi blo bhi (search_outer a alo ahi b js st)"
proof (induction js arbitrary: st)
  case Nil
  then show ?case by simp
next
  case (Cons j rest)
  have "search_ok a b alo ahi blo bhi (search_inner a (b ! j) j [alo..<ahi] st)"
    using Cons.prems by (intro search_inner_ok) auto
  from Cons.IH [OF this] Cons.prems(2) show ?case by simp
qed

lemma synch_point_range:
  assumes "synch_point a alo ahi b blo bhi = Some ((i, j), ident)"
  shows "alo \<le> i \<and> i < ahi \<and> blo \<le> j \<and> j < bhi \<and> (ident \<longrightarrow> a ! i = b ! j)"
proof -
  have "search_ok a b alo ahi blo bhi (74 / 100, None, None)"
    by (simp add: search_ok_def)
  then have "search_ok a b alo ahi blo bhi (search_outer a alo ahi b [blo..<bhi] (74 / 100, None, None))"
    by (rule search_outer_ok) simp
  with assms show ?thesis
    by (auto simp: synch_point_def search_ok_def split: prod.splits if_splits option.splits)
qed

function fancy_replace ::
    "pystr list \<Rightarrow> nat \<Rightarrow> nat \<Rightarrow> pystr list \<Rightarrow> nat \<Rightarrow> nat \<Rightarrow> pystr list"
  and fancy_helper ::
    "pystr list \<Rightarrow> nat \<Rightarrow> nat \<Rightarrow> pystr list \<Rightarrow> nat \<Rightarrow> nat \<Rightarrow> pystr list" where
  "fancy_replace a alo ahi b blo bhi =
     (case synch_point a alo ahi b blo bhi of
        None \<Rightarrow> plain_replace a alo ahi b blo bhi
      | Some ((best_i, best_j), ident) \<Rightarrow>
          fancy_helper a alo best_i b blo best_j @
          (if ident then [ascii ''  '' @ a ! best_i]
           else
             (case tags_loop (get_opcodes (Some IS_CHARACTER_JUNK) (a ! best_i) (b ! best_j)) [] [] of
                (atags, btags) \<Rightarrow> qformat (a ! best_i) (b ! best_j) atags btags)) @
          fancy_helper a (best_i + 1) ahi b (best_j + 1) bhi)"
| "fancy_helper a alo ahi b blo bhi =
     (if alo < ahi then
        (if blo < bhi then fancy_replace a alo ahi b blo bhi else dump 45 a alo ahi)
      else if blo < bhi then dump 43 b blo bhi
      else [])"
  by pat_completeness auto
termination
  apply (relation "measure (\<lambda>x. case x of
            Inl (a, alo, ahi, b, blo, bhi) \<Rightarrow> 2 * (ahi - alo)
          | Inr (a, alo, ahi, b, blo, bhi) \<Rightarrow> 2 * (ahi - alo) + 1)")
     apply simp
    apply (auto dest!: synch_point_range)
  done

declare fancy_replace.simps [simp del] fancy_helper.simps [simp del]

definition compare :: "pystr list \<Rightarrow> pystr list \<Rightarrow> pystr list" where
  "compare a b =
     concat (map (\<lambda>(tg, alo, ahi, blo, bhi).
                    case tg of
                      Replace \<Rightarrow> fancy_replace a alo ahi b blo bhi
                    | Delete \<Rightarrow> dump 45 a alo ahi
                    | Insert \<Rightarrow> dump 43 b blo bhi
                    | Equal \<Rightarrow> dump 32 a alo ahi)
            (get_opcodes None a b))"

text \<open>\<open>ndiff(a, b)\<close> with its defaults: \<open>linejunk=None\<close>, \<open>charjunk=IS_CHARACTER_JUNK\<close>.\<close>

definition ndiff :: "pystr list \<Rightarrow> pystr list \<Rightarrow> pystr list" where
  "ndiff a b = compare a b"


section \<open>Comparison\<close>

text \<open>
  The dictionary of one compared slide pair. The keys that the source adds only under a
  condition are optional fields; \<open>d_slide_number\<close> is its key \<open>slide_number\<close>.
\<close>

record slide_differences =
  d_slide_number :: nat
  has_text_diff :: bool
  has_image_diff :: bool
  image_count1 :: nat
  image_count2 :: nat
  text_diff :: "pystr list option"
  ppt1_content :: "pystr option"
  ppt2_content :: "pystr option"
  image_count_different :: "bool option"
  images_missing_in_ppt1 :: "image_data list option"
  images_missing_in_ppt2 :: "image_data list option"

text \<open>An entry of \<open>extra_slides\<close>; the \<open>x_\<close> fields are the keys without the prefix.\<close>

record extra_slide =
  x_slide_number :: nat
  in_presentation :: nat
  x_text_content :: pystr
  x_image_count :: nat

text \<open>The dictionary \<open>compare_presentations\<close> returns, with the keys of its three forms.\<close>

record comparison_result =
  identical :: bool
  summary :: pystr
  differences :: "slide_differences list"
  detailed_summary :: "pystr option"
  extra_slides :: "extra_slide list option"
  slide_count_different :: "bool option"
  slide_count_message :: "pystr option"
  error_details :: "pystr option"
  error :: "bool option"

text \<open>
  A Python \<open>dict\<close> keeps its keys in the order of their first insertion; storing under a
  key that is present replaces the value in place.
\<close>

fun dict_set :: "('k \<times> 'v) list \<Rightarrow> 'k \<Rightarrow> 'v \<Rightarrow> ('k \<times> 'v) list" where
  "dict_set [] k v = [(k, v)]"
| "dict_set ((k', v') # d) k v = (if k' = k then (k', v) # d else (k', v') # dict_set d k v)"

text \<open>\<open>{img["hash"]: img for img in images}\<close>.\<close>

definition image_hashes :: "image_data list \<Rightarrow> (pystr \<times> image_data) list" where
  "image_hashes imgs = fold (\<lambda>img d. dict_set d (hash img) img) imgs []"

text \<open>The loop \<open>for h, img in d.items(): if h not in other: missing.append(img)\<close>.\<close>

definition missing_in :: "(pystr \<times> image_data) list \<Rightarrow> (pystr \<times> image_data) list \<Rightarrow> image_data list" where
  "missing_in d other = map snd (filter (\<lambda>(h, img). map_of other h = None) d)"

text \<open>The body of the loop over the compared positions, up to the dictionary it builds.\<close>

definition compare_slide :: "slide_content \<Rightarrow> slide_content \<Rightarrow> slide_differences" where
  "compare_slide slide1 slide2 =
     (let content1 = text_content slide1;
          content2 = text_content slide2;
          images1 = images slide1;
          images2 = images slide2;
          sd0 = \<lparr>d_slide_number = slide_number slide1, has_text_diff = False,
                 has_image_diff = False, image_count1 = length images1,
                 image_count2 = length images2, text_diff = None, ppt1_content = None,
                 ppt2_content = None, image_count_different = None,
                 images_missing_in_ppt1 = None, images_missing_in_ppt2 = None\<rparr>;
          sd1 = (if content1 \<noteq> content2
                 then sd0\<lparr>has_text_diff := True,
                          text_diff := Some (ndiff (splitlines content1) (splitlines content2)),
                          ppt1_content := Some content1, ppt2_content := Some content2\<rparr>
                 else sd0);
          image_hashes1 = image_hashes images1;
          image_hashes2 = image_hashes images2;
          missing_in_ppt2 = missing_in image_hashes1 image_hashes2;
          missing_in_ppt1 = missing_in image_hashes2 image_hashes1;
          sd2 = (if length images1 \<noteq> length images2
                 then sd1\<lparr>image_count_different := Some True\<rparr> else sd1);
          sd3 = (if missing_in_ppt1 \<noteq> [] \<or> missing_in_ppt2 \<noteq> [] \<or>
                    (case image_count_different sd2 of None \<Rightarrow> False | Some v \<Rightarrow> v)
                 then sd2\<lparr>has_image_diff := True,
                          images_missing_in_ppt1 := Some missing_in_ppt1,
                          images_missing_in_ppt2 := Some missing_in_ppt2\<rparr>
                 else sd2)
      in sd3)"

text \<open>The accumulators of the loop.\<close>

record loop_state =
  loop_differences :: "slide_differences list"
  identical_count :: nat
  text_diff_count :: nat
  image_diff_count :: nat

definition loop_step :: "slide_content list \<Rightarrow> slide_content list \<Rightarrow> nat \<Rightarrow> loop_state \<Rightarrow> loop_state" where
  "loop_step slides1 slides2 i st =
     (let sd = compare_slide (slides1 ! i) (slides2 ! i);
          st1 = (if has_text_diff sd then st\<lparr>text_diff_count := text_diff_count st + 1\<rparr> else st);
          st2 = (if has_image_diff sd then st1\<lparr>image_diff_count := image_diff_count st1 + 1\<rparr>
                 else st1)
      in if has_text_diff sd \<or> has_image_diff sd
         then st2\<lparr>loop_differences := loop_differences st2 @ [sd]\<rparr>
         else st2\<lparr>identical_count := identical_count st2 + 1\<rparr>)"

definition compare_loop :: "slide_content list \<Rightarrow> slide_content list \<Rightarrow> loop_state" where
  "compare_loop slides1 slides2 =
     fold (loop_step slides1 slides2) [0..<min (length slides1) (length slides2)]
       \<lparr>loop_differences = [], identical_count = 0, text_diff_count = 0, image_diff_count = 0\<rparr>"

definition extra_slides_of :: "slide_content list \<Rightarrow> slide_content list \<Rightarrow> extra_slide list" where
  "extra_slides_of slides1 slides2 =
     (let min_slides = min (length slides1) (length slides2)
      in if length slides2 < length slides1 then
           map (\<lambda>i. \<lparr>x_slide_number = slide_number (slides1 ! i), in_presentation = 1,
                      x_text_content = text_content (slides1 ! i),
                      x_image_count = length (images (slides1 ! i))\<rparr>)
             [min_slides..<length slides1]
         else if length slides1 < length slides2 then
           map (\<lambda>i. \<lparr>x_slide_number = slide_number (slides2 ! i), in_presentation = 2,
                      x_text_content = text_content (slides2 ! i),
                      x_image_count = length (images (slides2 ! i))\<rparr>)
             [min_slides..<length slides2]
         else [])"

text \<open>The body of the \<open>try\<close> block after the two extractions.\<close>

definition compare_slides :: "slide_content list \<Rightarrow> slide_content list \<Rightarrow> comparison_result" where
  "compare_slides slides1 slides2 =
     (let slide_count_diff = (length slides1 \<noteq> length slides2);
          min_slides = min (length slides1) (length slides2);
          slide_count_message' =
            (if slide_count_diff then
               ascii ''Presentations have different number of slides: '' @
               str_nat (length slides1) @ ascii '' vs '' @ str_nat (length slides2) @
               ascii ''. Comparing the first '' @ str_nat min_slides @ ascii '' slides.''
             else []);
          st = compare_loop slides1 slides2;
          extra = extra_slides_of slides1 slides2
      in if loop_differences st = [] \<and> \<not> slide_count_diff then
           \<lparr>identical = True,
            summary = ascii ''All '' @ str_nat (length slides1) @
                      ascii '' slides have identical text and image content'',
            differences = [], detailed_summary = None, extra_slides = None,
            slide_count_different = None, slide_count_message = None, error_details = None,
            error = None\<rparr>
         else
           \<lparr>identical = False,
            summary = ascii ''Found differences in '' @ str_nat (length (loop_differences st)) @
                      ascii '' out of '' @ str_nat min_slides @ ascii '' compared slides ('' @
                      str_nat (identical_count st) @ ascii '' slides identical)'',
            differences = loop_differences st,
            detailed_summary =
              Some (ascii ''Text differences: '' @ str_nat (text_diff_count st) @
                    ascii '' slides, Image differences: '' @ str_nat (image_diff_count st) @
                    ascii '' slides''),
            extra_slides = Some extra,
            slide_count_different = Some slide_count_diff,
            slide_count_message = Some (if slide_count_diff then slide_count_message' else []),
            error_details = None, error = None\<rparr>)"




section \<open>Notions used to state the properties\<close>

text \<open>A compared slide pair differs when one of its two flags is set.\<close>

definition differs :: "slide_differences \<Rightarrow> bool" where
  "differs sd \<longleftrightarrow> has_text_diff sd \<or> has_image_diff sd"





text \<open>
  Texts that differ only by whitespace. \<open>blank\<close> is a text of whitespace only;
  \<open>ws_padded\<close> relates two texts with the same core between blank margins;
  \<open>ws_list\<close> relates two lists of texts that agree up to such margins and up to blank
  entries on either side. \<open>slide_texts\<close> lists the texts of a slide in the order of
  the document: the text of each shape, then the cells of its table row by row.
  \<open>text_line\<close> is the line a text contributes to the slide text.
\<close>

definition blank :: "pystr \<Rightarrow> bool" where
  "blank t \<longleftrightarrow> list_all isspace t"

inductive ws_padded :: "pystr \<Rightarrow> pystr \<Rightarrow> bool" where
  "blank l1 \<Longrightarrow> blank r1 \<Longrightarrow> blank l2 \<Longrightarrow> blank r2 \<Longrightarrow> ws_padded (l1 @ core @ r1) (l2 @ core @ r2)"

inductive ws_list :: "pystr list \<Rightarrow> pystr list \<Rightarrow> bool" where
  Nil: "ws_list [] []"
| Both: "ws_padded x y \<Longrightarrow> ws_list xs ys \<Longrightarrow> ws_list (x # xs) (y # ys)"
| Left: "blank x \<Longrightarrow> ws_list xs ys \<Longrightarrow> ws_list (x # xs) ys"
| Right: "blank y \<Longrightarrow> ws_list xs ys \<Longrightarrow> ws_list xs (y # ys)"

definition shape_texts :: "shape \<Rightarrow> pystr list" where
  "shape_texts sh =
     (case text' sh of Inr (Some t) \<Rightarrow> [t] | _ \<Rightarrow> []) @
     (case table sh of Inr (Some rows) \<Rightarrow> concat rows | _ \<Rightarrow> [])"

definition slide_texts :: "shape list \<Rightarrow> pystr list" where
  "slide_texts slide = concat (map shape_texts slide)"

definition text_line :: "pystr \<Rightarrow> pystr list" where
  "text_line t = (if strip t \<noteq> [] then [strip t] else [])"











definition region_apart :: "region \<Rightarrow> region \<Rightarrow> bool" where
  "region_apart r r' \<longleftrightarrow>
     (case r of (alo, ahi, blo, bhi) \<Rightarrow> case r' of (alo', ahi', blo', bhi') \<Rightarrow>
        (ahi \<le> alo' \<and> bhi \<le> blo') \<or> (ahi' \<le> alo \<and> bhi' \<le> blo))"









definition example_shape :: "8 word \<Rightarrow> shape" where
  "example_shape c =
     Shape (if c = 255 then Inl \<lparr>exn_str = ascii ''unrecognized shape type'', exn_frames = []\<rparr>
            else Inr (Some 17))
       None None (Inr (Some [unat c])) (Inr None) []"


definition example_libs :: "bytes libs" where
  "example_libs =
     \<lparr>md5_hexdigest = (\<lambda>b. Some (map unat b)),
      image_open = (\<lambda>b. if b = [] then None else Some b),
      image_size = (\<lambda>img. (length img, 1)),
      image_format = (\<lambda>img. ascii ''PNG''),
      png_base64 = (\<lambda>img. if 1 < length img then None else Some (map unat img)),
      shape_type_str = (\<lambda>t. case t of None \<Rightarrow> ascii ''None'' | Some i \<Rightarrow> str_nat (nat i)),
      Presentation = (\<lambda>b. if b = [] then Inl \<lparr>exn_str = ascii ''not a zip file'', exn_frames = []\<rparr>
                         else Inr (map (\<lambda>c. [example_shape c]) b)),
      recursion_room = 1000,
      recursion_error = \<lparr>exn_str = ascii ''maximum recursion depth exceeded'', exn_frames = []\<rparr>\<rparr>"

section \<open>The image fingerprint\<close>

text \<open>
  Claim C8. For every byte string on which the digest is available,
  \<open>process_image_blob\<close> returns a record whose hash is the digest of the bytes and
  whose size is their number; when the image cannot be opened the record has width 0,
  height 0 and format \<open>"Unknown"\<close> (and no thumbnail); when only the thumbnail fails,
  the thumbnail is \<open>None\<close> and the other fields are those of the opened image. The
  result is \<open>None\<close> exactly when the digest raises.
\<close>

theorem process_image_blob_record:
  "(process_image_blob L blob dbg = None \<longleftrightarrow> md5_hexdigest L blob = None) \<and>
   (\<forall>h. md5_hexdigest L blob = Some h \<longrightarrow>
      (\<exists>r. process_image_blob L blob dbg = Some r \<and> hash r = h \<and> size' r = length blob \<and>
           debug_info r = dbg \<and>
           (image_open L blob = None \<longrightarrow>
              width r = 0 \<and> height r = 0 \<and> format r = ascii ''Unknown'' \<and> thumbnail r = None) \<and>
           (\<forall>img. image_open L blob = Some img \<longrightarrow>
              width r = fst (image_size L img) \<and> height r = snd (image_size L img) \<and>
              format r = image_format L img \<and>
              (png_base64 L img = None \<longrightarrow> thumbnail r = None) \<and>
              (\<forall>t. png_base64 L img = Some t \<longrightarrow>
                 thumbnail r = Some (ascii ''data:image/png;base64,'' @ t)))))"
  by (auto simp: process_image_blob_def split: option.splits)

theorem process_image_blob_record_witness:
  "(\<exists>r. process_image_blob example_libs [] [] = Some r \<and> hash r = [] \<and> size' r = 0 \<and> width r = 0 \<and>
        height r = 0 \<and> format r = ascii ''Unknown'' \<and> thumbnail r = None) \<and>
   (\<exists>r. process_image_blob example_libs [1, 2] [] = Some r \<and> hash r = [1, 2] \<and> size' r = 2 \<and>
        width r = 2 \<and> height r = 1 \<and> format r = ascii ''PNG'' \<and> thumbnail r = None)"
proof -
  have m: "md5_hexdigest example_libs [] = Some []" "md5_hexdigest example_libs [1, 2] = Some [1, 2]"
    and o: "image_open example_libs [] = None" "image_open example_libs [1, 2] = Some [1, 2]"
    and i: "image_size example_libs [1, 2] = (2, 1)" "image_format example_libs [1, 2] = ascii ''PNG''"
      "png_base64 example_libs [1, 2] = None"
    by (simp_all add: example_libs_def)
  from process_image_blob_record [of example_libs "[]" "[]"] m(1) o(1)
  have a: "\<exists>r. process_image_blob example_libs [] [] = Some r \<and> hash r = [] \<and> size' r = 0 \<and>
      width r = 0 \<and> height r = 0 \<and> format r = ascii ''Unknown'' \<and> thumbnail r = None"
    by fastforce
  from process_image_blob_record [of example_libs "[1, 2]" "[]"] m(2) o(2) i
  have b: "\<exists>r. process_image_blob example_libs [1, 2] [] = Some r \<and> hash r = [1, 2] \<and> size' r = 2 \<and>
      width r = 2 \<and> height r = 1 \<and> format r = ascii ''PNG'' \<and> thumbnail r = None"
    by fastforce
  from a b show ?thesis ..
qed

section \<open>The shape walk\<close>









lemma walk_plain:
  "0 < room \<Longrightarrow> stype \<noteq> Some 6 \<Longrightarrow>
   extract_images_from_shape L room (Shape (Inr stype) None None tx tbl children) d = Inr []"
  by (cases room) (simp_all add: blob_images_def)







section \<open>Slide text\<close>

lemma cells_loop_eq: "cells_loop cells st = st @ concat (map text_line cells)"
  by (induction cells arbitrary: st) (auto simp: text_line_def)

lemma rows_loop_eq: "rows_loop rows st = st @ concat (map text_line (concat rows))"
  by (induction rows arbitrary: st) (auto simp: cells_loop_eq)

lemma shapes_loop_text:
  "shapes_loop L n slide st si = Inr (st', si') \<Longrightarrow>
   st' = st @ concat (map text_line (slide_texts slide))"
proof (induction slide arbitrary: st si)
  case Nil
  then show ?case by (simp add: slide_texts_def)
next
  case (Cons sh rest)
  from Cons.prems obtain shape_text shape_table imgs where
    t: "text' sh = Inr shape_text" and tb: "table sh = Inr shape_table"
    and w: "extract_images_from_shape L (recursion_room L) sh (ascii ''Slide '' @ str_nat n) = Inr imgs"
    by (auto split: sum.splits)
  let ?st1 = "case shape_text of
      Some t \<Rightarrow> if strip t \<noteq> [] then st @ [strip t] else st | None \<Rightarrow> st"
  let ?st2 = "case shape_table of Some rows \<Rightarrow> rows_loop rows ?st1 | None \<Rightarrow> ?st1"
  have r: "shapes_loop L n rest ?st2 (if imgs \<noteq> [] then si @ imgs else si) = Inr (st', si')"
    using Cons.prems by (simp add: t tb w Let_def)
  have "?st2 = st @ concat (map text_line (shape_texts sh))"
    by (simp add: shape_texts_def t tb rows_loop_eq text_line_def split: option.splits)
  with Cons.IH [OF r] show ?case
    by (simp add: slide_texts_def)
qed

lemma text_lines_filter:
  "concat (map text_line ts) = map strip (filter (\<lambda>t. strip t \<noteq> []) ts)"
  by (induction ts) (simp_all add: text_line_def)

lemma text_content_extract_slide:
  "extract_slide L n slide = Inr content \<Longrightarrow>
   text_content content = join [10] (map strip (filter (\<lambda>t. strip t \<noteq> []) (slide_texts slide))) \<and>
   slide_number content = n"
  using shapes_loop_text [of L n slide "[]" "[]"]
  by (auto simp: extract_slide_def text_lines_filter split: sum.splits prod.splits)

lemma lstrip_blank_append: "blank l \<Longrightarrow> lstrip (l @ s) = lstrip s"
  by (simp add: lstrip_def blank_def list_all_iff dropWhile_append2)

lemma rstrip_append_blank: "blank r \<Longrightarrow> rstrip (s @ r) = rstrip s"
  using dropWhile_append2 [of "rev r" isspace "rev s"]
  by (simp add: rstrip_def blank_def list_all_iff)

lemma strip_blank: "blank t \<Longrightarrow> strip t = []"
proof -
  assume "blank t"
  then have "lstrip t = []"
    by (simp add: lstrip_def blank_def list_all_iff)
  then show ?thesis
    by (simp add: strip_def rstrip_def)
qed

lemma strip_append_blank: "blank r \<Longrightarrow> strip (s @ r) = strip s"
proof (cases "blank s")
  case True
  assume "blank r"
  with True have "blank (s @ r)" by (simp add: blank_def)
  with True show ?thesis by (simp add: strip_blank)
next
  case False
  assume r: "blank r"
  from False have "lstrip (s @ r) = lstrip s @ r"
    by (auto simp: lstrip_def blank_def list_all_iff dropWhile_append1)
  then show ?thesis
    by (simp add: strip_def rstrip_append_blank r)
qed

lemma strip_padded: "blank l \<Longrightarrow> blank r \<Longrightarrow> strip (l @ s @ r) = strip s"
  using strip_append_blank [of r "l @ s"] strip_append_blank [of r s]
  by (simp add: strip_def lstrip_blank_append)

lemma text_line_padded: "ws_padded x y \<Longrightarrow> text_line x = text_line y"
  by (induction rule: ws_padded.induct) (simp add: text_line_def strip_padded)

lemma text_line_blank: "blank x \<Longrightarrow> text_line x = []"
  by (simp add: text_line_def strip_blank)

lemma ws_list_lines: "ws_list xs ys \<Longrightarrow> concat (map text_line xs) = concat (map text_line ys)"
  by (induction rule: ws_list.induct) (simp_all add: text_line_padded text_line_blank)

section \<open>The line diff restores both texts\<close>














lemma region_apart_sym: "region_apart r q \<Longrightarrow> region_apart q r"
  by (cases r; cases q) (auto simp: region_apart_def)





































section \<open>The comparison\<close>

lemma fold_loop_step:
  "loop_differences (fold (loop_step A B) is st) =
     loop_differences st @ filter differs (map (\<lambda>i. compare_slide (A ! i) (B ! i)) is) \<and>
   identical_count (fold (loop_step A B) is st) =
     identical_count st + length (filter (\<lambda>sd. \<not> differs sd) (map (\<lambda>i. compare_slide (A ! i) (B ! i)) is))"
  by (induction "is" arbitrary: st) (auto simp: loop_step_def Let_def differs_def)

lemma compare_loop_differences:
  "loop_differences (compare_loop A B) =
     filter differs (map (\<lambda>i. compare_slide (A ! i) (B ! i)) [0..<min (length A) (length B)])"
  by (simp add: compare_loop_def fold_loop_step)

lemma compare_loop_identical_count:
  "identical_count (compare_loop A B) =
     length (filter (\<lambda>sd. \<not> differs sd)
       (map (\<lambda>i. compare_slide (A ! i) (B ! i)) [0..<min (length A) (length B)]))"
  by (simp add: compare_loop_def fold_loop_step)

lemma map_of_dict_set_keys: "fst ` set (dict_set d k v) = insert k (fst ` set d)"
  by (induction d k v rule: dict_set.induct) auto

lemma missing_in_self: "missing_in d d = []"
proof -
  have "\<And>h img. (h, img) \<in> set d \<Longrightarrow> map_of d h \<noteq> None"
    by (metis map_of_eq_None_iff fst_conv image_eqI)
  then show ?thesis
    by (auto simp: missing_in_def filter_empty_conv)
qed

lemma compare_slide_self: "\<not> differs (compare_slide s s)"
  by (simp add: compare_slide_def differs_def Let_def missing_in_self)











text \<open>
  Claim C1. Comparing a deck with itself gives a result with \<open>identical\<close> true and
  no differences; the loop produces no entry and counts every slide as identical, and
  the summary reports all \<open>len(A)\<close> slides.
\<close>

theorem compare_reflexive:
  "identical (compare_slides A A) \<and> differences (compare_slides A A) = [] \<and>
   loop_differences (compare_loop A A) = [] \<and> identical_count (compare_loop A A) = length A \<and>
   summary (compare_slides A A) =
     ascii ''All '' @ str_nat (length A) @ ascii '' slides have identical text and image content''"
proof -
  have d: "loop_differences (compare_loop A A) = []"
    by (simp add: compare_loop_differences filter_empty_conv compare_slide_self)
  have c: "identical_count (compare_loop A A) = length A"
    by (simp add: compare_loop_identical_count compare_slide_self)
  show ?thesis
    using d c by (simp add: compare_slides_def Let_def)
qed














text \<open>
  Claim C10. The text of an extracted slide is made of the texts of its shapes and
  table cells in the order of the document, each trimmed, those that are empty after
  trimming left out, joined by line feeds. So when the texts of two slides differ only
  by leading and trailing whitespace and by texts and cells of whitespace only, the
  extracted slide texts are equal, and comparing the two slides reports no text
  difference.
\<close>

theorem whitespace_insensitive_text:
  assumes "extract_slide L n slide1 = Inr s1" "extract_slide L m slide2 = Inr s2"
  shows "text_content s1 =
       join [10] (map strip (filter (\<lambda>t. strip t \<noteq> []) (slide_texts slide1))) \<and>
     text_content s2 =
       join [10] (map strip (filter (\<lambda>t. strip t \<noteq> []) (slide_texts slide2))) \<and>
     (ws_list (slide_texts slide1) (slide_texts slide2) \<longrightarrow>
        text_content s1 = text_content s2 \<and>
        \<not> has_text_diff (compare_slide s1 s2) \<and>
        text_diff (compare_slide s1 s2) = None)"
proof -
  have t: "text_content s1 =
       join [10] (map strip (filter (\<lambda>t. strip t \<noteq> []) (slide_texts slide1)))"
    "text_content s2 =
       join [10] (map strip (filter (\<lambda>t. strip t \<noteq> []) (slide_texts slide2)))"
    using text_content_extract_slide [OF assms(1)] text_content_extract_slide [OF assms(2)]
    by simp_all
  have "text_content s1 = text_content s2 \<and> \<not> has_text_diff (compare_slide s1 s2) \<and>
      text_diff (compare_slide s1 s2) = None"
    if w: "ws_list (slide_texts slide1) (slide_texts slide2)"
  proof -
    have "text_content s1 = text_content s2"
      using ws_list_lines [OF w] unfolding t text_lines_filter by simp
    then show ?thesis
      by (simp add: compare_slide_def Let_def)
  qed
  with t show ?thesis by blast
qed

theorem whitespace_insensitive_text_witness:
  "extract_slide example_libs 1
     [Shape (Inr (Some 17)) None None (Inr (Some (ascii '' Hi ''))) (Inr None) [],
      Shape (Inr (Some 17)) None None (Inr (Some (ascii ''  ''))) (Inr (Some [[ascii '' '']])) []] =
     Inr \<lparr>slide_number = 1, text_content = ascii ''Hi'', images = [], image_count = 0\<rparr> \<and>
   extract_slide example_libs 1
     [Shape (Inr (Some 17)) None None (Inr (Some (ascii ''Hi''))) (Inr None) []] =
     Inr \<lparr>slide_number = 1, text_content = ascii ''Hi'', images = [], image_count = 0\<rparr> \<and>
   ws_list
     (slide_texts
        [Shape (Inr (Some 17)) None None (Inr (Some (ascii '' Hi ''))) (Inr None) [],
         Shape (Inr (Some 17)) None None (Inr (Some (ascii ''  ''))) (Inr (Some [[ascii '' '']])) []])
     (slide_texts [Shape (Inr (Some 17)) None None (Inr (Some (ascii ''Hi''))) (Inr None) []]) \<and>
   \<not> has_text_diff
       (compare_slide \<lparr>slide_number = 1, text_content = ascii ''Hi'', images = [], image_count = 0\<rparr>
          \<lparr>slide_number = 1, text_content = ascii ''Hi'', images = [], image_count = 0\<rparr>)"
proof -
  have room: "0 < recursion_room example_libs"
    by (simp add: example_libs_def)
  have e1: "extract_slide example_libs 1
     [Shape (Inr (Some 17)) None None (Inr (Some (ascii '' Hi ''))) (Inr None) [],
      Shape (Inr (Some 17)) None None (Inr (Some (ascii ''  ''))) (Inr (Some [[ascii '' '']])) []] =
     Inr \<lparr>slide_number = 1, text_content = ascii ''Hi'', images = [], image_count = 0\<rparr>"
    by (simp add: extract_slide_def walk_plain room strip_def lstrip_def rstrip_def isspace_def
        ascii_def)
  have e2: "extract_slide example_libs 1
     [Shape (Inr (Some 17)) None None (Inr (Some (ascii ''Hi''))) (Inr None) []] =
     Inr \<lparr>slide_number = 1, text_content = ascii ''Hi'', images = [], image_count = 0\<rparr>"
    by (simp add: extract_slide_def walk_plain room strip_def lstrip_def rstrip_def isspace_def
        ascii_def)
  have p: "ws_padded (ascii '' Hi '') (ascii ''Hi'')"
    using ws_padded.intros [of "[32]" "[32]" "[]" "[]" "ascii ''Hi''"]
    by (simp add: blank_def isspace_def ascii_def)
  have b: "blank (ascii ''  '')" "blank (ascii '' '')"
    by (simp_all add: blank_def isspace_def ascii_def)
  have w: "ws_list
     (slide_texts
        [Shape (Inr (Some 17)) None None (Inr (Some (ascii '' Hi ''))) (Inr None) [],
         Shape (Inr (Some 17)) None None (Inr (Some (ascii ''  ''))) (Inr (Some [[ascii '' '']])) []])
     (slide_texts [Shape (Inr (Some 17)) None None (Inr (Some (ascii ''Hi''))) (Inr None) []])"
    unfolding slide_texts_def shape_texts_def
    using ws_list.Both [OF p ws_list.Left [OF b(1) ws_list.Left [OF b(2) ws_list.Nil]]]
    by simp
  from whitespace_insensitive_text [OF e1 e2] w e1 e2 show ?thesis
    by blast
qed

end
